theory Spec2Isabelle
  imports Complex_Main "HOL-Library.Multiset" "HOL-Library.Char_ord" "HOL-Library.List_Lexorder"
begin

section \<open>Text and path helpers of the Python runtime\<close>

text \<open>
  A Python \<open>str\<close> is modelled as a \<open>string\<close>; the characters are the code points 0 to 255.
  Code points above 255 are outside this model. \<open>str.isspace\<close> on this range holds of
  TAB, LF, VT, FF, CR, the separators 0x1C to 0x1F, SPACE, NEL (0x85) and NBSP (0xA0).
\<close>

definition is_space :: "char \<Rightarrow> bool" where
  "is_space c = (c \<in> set [CHR 0x09, CHR 0x0A, CHR 0x0B, CHR 0x0C, CHR 0x0D,
     CHR 0x1C, CHR 0x1D, CHR 0x1E, CHR 0x1F, CHR 0x20, CHR 0x85, CHR 0xA0])"

text \<open>\<open>str.strip()\<close>: leading and trailing whitespace removed.\<close>

definition py_strip :: "string \<Rightarrow> string" where
  "py_strip s = rev (dropWhile is_space (rev (dropWhile is_space s)))"

text \<open>
  \<open>str.split()\<close> with no argument: the maximal runs of non-whitespace characters, in
  order; no empty token. The first argument is the token being read.
\<close>

fun split_from :: "string \<Rightarrow> string \<Rightarrow> string list" where
  "split_from cur [] = (if cur = [] then [] else [cur])"
| "split_from cur (c # cs) =
     (if is_space c then (if cur = [] then split_from [] cs else cur # split_from [] cs)
      else split_from (cur @ [c]) cs)"

definition py_split :: "string \<Rightarrow> string list" where
  "py_split s = split_from [] s"

text \<open>
  A file opened in text mode translates \<open>\r\n\<close> and a lone \<open>\r\<close> to \<open>\n\<close>
  (universal newlines); \<open>readlines()\<close> cuts the text after every \<open>\n\<close> and keeps
  the terminator; a last line with no terminator is a line too.
\<close>

fun universal_newlines :: "string \<Rightarrow> string" where
  "universal_newlines [] = []"
| "universal_newlines (c # cs) =
     (if c = CHR 0x0D then
        (case cs of
           [] \<Rightarrow> [CHR 0x0A]
         | d # ds \<Rightarrow> if d = CHR 0x0A then CHR 0x0A # universal_newlines ds
                    else CHR 0x0A # universal_newlines (d # ds))
      else c # universal_newlines cs)"

fun lines_from :: "string \<Rightarrow> string \<Rightarrow> string list" where
  "lines_from cur [] = (if cur = [] then [] else [cur])"
| "lines_from cur (c # cs) =
     (if c = CHR 0x0A then (cur @ [c]) # lines_from [] cs else lines_from (cur @ [c]) cs)"

definition readlines :: "string \<Rightarrow> string list" where
  "readlines text = lines_from [] (universal_newlines text)"

text \<open>\<open>str.lower()\<close>: on the code points 0 to 127 only the letters A to Z change.
  The letters it changes above 127 stay above 127, so no comparison with an ASCII
  extension below depends on them; they are left as they are.\<close>

definition lower_char :: "char \<Rightarrow> char" where
  "lower_char c =
     (case map_of (zip ''ABCDEFGHIJKLMNOPQRSTUVWXYZ'' ''abcdefghijklmnopqrstuvwxyz'') c of
        None \<Rightarrow> c | Some d \<Rightarrow> d)"

definition py_lower :: "string \<Rightarrow> string" where
  "py_lower s = map lower_char s"

text \<open>
  \<open>pathlib\<close>: \<open>name.rfind('.')\<close> is the index of the last dot or -1; \<open>suffix\<close> is
  the part of the name from the last dot, when that dot is neither the first nor the last
  character, and empty otherwise; \<open>stem\<close> is the rest; \<open>with_suffix\<close> replaces the
  suffix, or appends when there is none.
\<close>

definition rfind_dot :: "string \<Rightarrow> int" where
  "rfind_dot name =
     (let k = length (takeWhile (\<lambda>c. c \<noteq> CHR ''.'') (rev name))
      in if k = length name then - 1 else int (length name) - int k - 1)"

definition path_suffix :: "string \<Rightarrow> string" where
  "path_suffix name =
     (let i = rfind_dot name
      in if 0 < i \<and> i < int (length name) - 1 then drop (nat i) name else [])"

definition path_stem :: "string \<Rightarrow> string" where
  "path_stem name =
     (let i = rfind_dot name
      in if 0 < i \<and> i < int (length name) - 1 then take (nat i) name else name)"

definition with_suffix :: "string \<Rightarrow> string \<Rightarrow> string" where
  "with_suffix name new_suffix =
     (let old_suffix = path_suffix name
      in if old_suffix = [] then name @ new_suffix
         else take (length name - length old_suffix) name @ new_suffix)"

section \<open>The file system and the libraries\<close>

text \<open>
  A directory is the list of its entries in the order \<open>iterdir()\<close> yields them. An entry
  is a regular readable file with its bytes, or anything that \<open>open()\<close> refuses
  (a subdirectory, a file without read permission).
\<close>

datatype node = File string | Unopenable

type_synonym directory = "(string \<times> node) list"

datatype error = OSError | AssertionError | RuntimeError | Cv2Error

text \<open>
  The libraries the scripts call are parameters of the model. \<open>'f\<close> is Python's
  \<open>float\<close> with its own comparisons and arithmetic (IEEE binary64 in CPython, with NaN
  and the infinities among the values \<open>float()\<close> can return); \<open>'m\<close> is an OpenCV
  matrix and \<open>'i\<close> a PIL image. A library call that raises returns \<open>None\<close>.
\<close>

record ('f, 'm, 'i) runtime =
  f_zero :: 'f
  f_one :: 'f
  f_two :: 'f
  f_le :: "'f \<Rightarrow> 'f \<Rightarrow> bool"
  f_lt :: "'f \<Rightarrow> 'f \<Rightarrow> bool"
  f_add :: "'f \<Rightarrow> 'f \<Rightarrow> 'f"
  f_sub :: "'f \<Rightarrow> 'f \<Rightarrow> 'f"
  f_div :: "'f \<Rightarrow> 'f \<Rightarrow> 'f"
  py_int :: "string \<Rightarrow> int option"
  py_float :: "string \<Rightarrow> 'f option"
  utf8_decode :: "string \<Rightarrow> string option"
  md5_hexdigest :: "string \<Rightarrow> string"
  cv2_imread :: "string \<Rightarrow> 'm option"
  cv2_gray_mean :: "'m \<Rightarrow> real option"
  pil_open :: "string \<Rightarrow> 'i option"
  pil_is_rgb :: "'i \<Rightarrow> bool"
  pil_convert_rgb :: "'i \<Rightarrow> 'i option"
  pil_brightness :: "real \<Rightarrow> 'i \<Rightarrow> 'i option"
  pil_contrast :: "real \<Rightarrow> 'i \<Rightarrow> 'i option"
  pil_sharpen :: "'i \<Rightarrow> 'i option"
  pil_save :: "string \<Rightarrow> 'i \<Rightarrow> string option"

section \<open>clean_laptop_dataset.py: validate_bounding_boxes\<close>

text \<open>
  The body of the loop over the lines. \<open>False\<close> is the \<open>return False\<close> of the source
  (a wrong number of tokens, a \<open>ValueError\<close> of \<open>int()\<close> or \<open>float()\<close>, a failed
  range check); \<open>True\<close> is the line that lets the loop go on.
\<close>

definition check_line :: "('f, 'm, 'i) runtime \<Rightarrow> string \<Rightarrow> bool" where
  "check_line R line =
     (let parts = py_split (py_strip line)
      in if length parts \<noteq> 5 then False
         else
           (case py_int R (parts ! 0) of
              None \<Rightarrow> False
            | Some class_id \<Rightarrow>
           (case py_float R (parts ! 1) of
              None \<Rightarrow> False
            | Some x_center \<Rightarrow>
           (case py_float R (parts ! 2) of
              None \<Rightarrow> False
            | Some y_center \<Rightarrow>
           (case py_float R (parts ! 3) of
              None \<Rightarrow> False
            | Some width \<Rightarrow>
           (case py_float R (parts ! 4) of
              None \<Rightarrow> False
            | Some height \<Rightarrow>
                if \<not> (f_le R (f_zero R) x_center \<and> f_le R x_center (f_one R)
                       \<and> f_le R (f_zero R) y_center \<and> f_le R y_center (f_one R))
                then False
                else if \<not> (f_lt R (f_zero R) width \<and> f_le R width (f_one R)
                       \<and> f_lt R (f_zero R) height \<and> f_le R height (f_one R))
                then False
                else
                  (let x_min = f_sub R x_center (f_div R width (f_two R));
                       x_max = f_add R x_center (f_div R width (f_two R));
                       y_min = f_sub R y_center (f_div R height (f_two R));
                       y_max = f_add R y_center (f_div R height (f_two R))
                   in if \<not> (f_le R (f_zero R) x_min \<and> f_lt R x_min x_max
                             \<and> f_le R x_max (f_one R)
                             \<and> f_le R (f_zero R) y_min \<and> f_lt R y_min y_max
                             \<and> f_le R y_max (f_one R))
                      then False
                      else True)))))))"

fun check_lines :: "('f, 'm, 'i) runtime \<Rightarrow> string list \<Rightarrow> bool" where
  "check_lines R [] = True"
| "check_lines R (line # rest) = (if \<not> check_line R line then False else check_lines R rest)"

text \<open>
  The argument is what stands at \<open>label_path\<close>: nothing, an entry that cannot be opened
  or whose bytes are not UTF-8 (the \<open>except Exception\<close> branch), or a text file.
\<close>

definition validate_bounding_boxes :: "('f, 'm, 'i) runtime \<Rightarrow> node option \<Rightarrow> bool" where
  "validate_bounding_boxes R label =
     (case label of
        None \<Rightarrow> False
      | Some Unopenable \<Rightarrow> False
      | Some (File bytes) \<Rightarrow>
          (case utf8_decode R bytes of
             None \<Rightarrow> False
           | Some text \<Rightarrow>
               (let lines = readlines text
                in if lines = [] then False else check_lines R lines)))"

text \<open>
  The validity of a label record in the words of the specification: one entry is valid
  when it has exactly 5 fields, the first an integer, the others numbers with the centre
  in [0,1], the size in (0,1], and the derived box inside [0,1] on both axes with its
  minimum strictly below its maximum; a record is valid when it has an entry and every
  entry is valid.
\<close>

definition in_closed_unit :: "('f, 'm, 'i) runtime \<Rightarrow> 'f \<Rightarrow> bool" where
  "in_closed_unit R v = (f_le R (f_zero R) v \<and> f_le R v (f_one R))"

definition in_half_open_unit :: "('f, 'm, 'i) runtime \<Rightarrow> 'f \<Rightarrow> bool" where
  "in_half_open_unit R v = (f_lt R (f_zero R) v \<and> f_le R v (f_one R))"

definition box_within :: "('f, 'm, 'i) runtime \<Rightarrow> 'f \<Rightarrow> 'f \<Rightarrow> bool" where
  "box_within R centre extent =
     (let lo = f_sub R centre (f_div R extent (f_two R));
          hi = f_add R centre (f_div R extent (f_two R))
      in f_le R (f_zero R) lo \<and> f_lt R lo hi \<and> f_le R hi (f_one R))"

definition entry_valid :: "('f, 'm, 'i) runtime \<Rightarrow> string \<Rightarrow> bool" where
  "entry_valid R line =
     (\<exists>t0 t1 t2 t3 t4 class_id x y w h.
        py_split (py_strip line) = [t0, t1, t2, t3, t4]
        \<and> py_int R t0 = Some class_id
        \<and> py_float R t1 = Some x \<and> py_float R t2 = Some y
        \<and> py_float R t3 = Some w \<and> py_float R t4 = Some h
        \<and> in_closed_unit R x \<and> in_closed_unit R y
        \<and> in_half_open_unit R w \<and> in_half_open_unit R h
        \<and> box_within R x w \<and> box_within R y h)"

definition label_valid :: "('f, 'm, 'i) runtime \<Rightarrow> string list \<Rightarrow> bool" where
  "label_valid R entries = (entries \<noteq> [] \<and> (\<forall>line \<in> set entries. entry_valid R line))"

section \<open>clean_laptop_dataset.py: hashing, brightness, enhancement\<close>

text \<open>\<open>calculate_image_hash\<close> opens the image and hashes its bytes; \<open>open()\<close> raises
  on an entry that cannot be opened, and nothing catches it.\<close>

definition calculate_image_hash :: "('f, 'm, 'i) runtime \<Rightarrow> node \<Rightarrow> error + string" where
  "calculate_image_hash R entry =
     (case entry of Unopenable \<Rightarrow> Inl OSError | File bytes \<Rightarrow> Inr (md5_hexdigest R bytes))"

text \<open>\<open>calculate_brightness\<close>: \<open>cv2.imread\<close> returns \<open>None\<close> for a file it cannot
  decode, and the function then returns 0.0; the conversion to gray and the mean can
  raise.\<close>

definition calculate_brightness :: "('f, 'm, 'i) runtime \<Rightarrow> string \<Rightarrow> error + real" where
  "calculate_brightness R bytes =
     (case cv2_imread R bytes of
        None \<Rightarrow> Inr 0
      | Some img \<Rightarrow>
          (case cv2_gray_mean R img of None \<Rightarrow> Inl Cv2Error | Some mean \<Rightarrow> Inr mean))"

text \<open>\<open>enhance_image\<close>: \<open>Some\<close> of the bytes written to the output path when it returns
  \<open>True\<close>, \<open>None\<close> when an exception made it return \<open>False\<close>.\<close>

definition enhance_image ::
  "('f, 'm, 'i) runtime \<Rightarrow> string \<Rightarrow> string \<Rightarrow> real \<Rightarrow> real \<Rightarrow> bool \<Rightarrow> string option" where
  "enhance_image R bytes output_name brightness_factor contrast_factor sharpen =
     (case pil_open R bytes of
        None \<Rightarrow> None
      | Some img \<Rightarrow>
     (case (if \<not> pil_is_rgb R img then pil_convert_rgb R img else Some img) of
        None \<Rightarrow> None
      | Some img1 \<Rightarrow>
     (case (if brightness_factor \<noteq> 1 then pil_brightness R brightness_factor img1
            else Some img1) of
        None \<Rightarrow> None
      | Some img2 \<Rightarrow>
     (case (if contrast_factor \<noteq> 1 then pil_contrast R contrast_factor img2
            else Some img2) of
        None \<Rightarrow> None
      | Some img3 \<Rightarrow>
     (case (if sharpen then pil_sharpen R img3 else Some img3) of
        None \<Rightarrow> None
      | Some img4 \<Rightarrow> pil_save R output_name img4)))))"

section \<open>clean_laptop_dataset.py: clean_dataset\<close>

record statistics =
  total_images :: int
  duplicates_removed :: int
  no_label_removed :: int
  invalid_bbox_removed :: int
  too_dark_removed :: int
  too_bright_removed :: int
  kept :: int
  enhanced :: int

record config =
  min_brightness :: real
  max_brightness :: real
  apply_enhancement :: bool
  brightness_factor :: real
  contrast_factor :: real
  sharpen :: bool

text \<open>The state of the loop: the counters, the dictionary from hash to the name of the
  first image that had it, and the output directory (name to bytes).\<close>

record cstate =
  stats :: statistics
  seen_hashes :: "string \<rightharpoonup> string"
  output_dir :: "string \<rightharpoonup> string"

definition image_extensions :: "string list" where
  "image_extensions = [''.jpg'', ''.jpeg'', ''.png'']"

definition image_files :: "directory \<Rightarrow> directory" where
  "image_files source =
     filter (\<lambda>(name, entry). py_lower (path_suffix name) \<in> set image_extensions) source"

definition initial_stats :: "directory \<Rightarrow> statistics" where
  "initial_stats source =
     \<lparr>total_images = int (length (image_files source)), duplicates_removed = 0,
      no_label_removed = 0, invalid_bbox_removed = 0, too_dark_removed = 0,
      too_bright_removed = 0, kept = 0, enhanced = 0\<rparr>"

definition count_no_label :: "cstate \<Rightarrow> cstate" where
  "count_no_label st =
     st\<lparr>stats := (stats st)\<lparr>no_label_removed := no_label_removed (stats st) + 1\<rparr>\<rparr>"

definition count_invalid_bbox :: "cstate \<Rightarrow> cstate" where
  "count_invalid_bbox st =
     st\<lparr>stats := (stats st)\<lparr>invalid_bbox_removed := invalid_bbox_removed (stats st) + 1\<rparr>\<rparr>"

definition count_duplicate :: "cstate \<Rightarrow> cstate" where
  "count_duplicate st =
     st\<lparr>stats := (stats st)\<lparr>duplicates_removed := duplicates_removed (stats st) + 1\<rparr>\<rparr>"

definition count_too_dark :: "cstate \<Rightarrow> cstate" where
  "count_too_dark st =
     st\<lparr>stats := (stats st)\<lparr>too_dark_removed := too_dark_removed (stats st) + 1\<rparr>\<rparr>"

definition count_too_bright :: "cstate \<Rightarrow> cstate" where
  "count_too_bright st =
     st\<lparr>stats := (stats st)\<lparr>too_bright_removed := too_bright_removed (stats st) + 1\<rparr>\<rparr>"

definition count_kept :: "cstate \<Rightarrow> cstate" where
  "count_kept st = st\<lparr>stats := (stats st)\<lparr>kept := kept (stats st) + 1\<rparr>\<rparr>"

definition count_enhanced :: "cstate \<Rightarrow> cstate" where
  "count_enhanced st = st\<lparr>stats := (stats st)\<lparr>enhanced := enhanced (stats st) + 1\<rparr>\<rparr>"

definition write_file :: "string \<Rightarrow> string \<Rightarrow> cstate \<Rightarrow> cstate" where
  "write_file name bytes st = st\<lparr>output_dir := (output_dir st)(name \<mapsto> bytes)\<rparr>"

text \<open>The image passed all checks (lines 231 to 247): the image is enhanced or copied,
  then the label is copied and \<open>kept\<close> counted. \<open>shutil.copy2\<close> raises on an entry it
  cannot open.\<close>

definition accept_image ::
  "('f, 'm, 'i) runtime \<Rightarrow> config \<Rightarrow> directory \<Rightarrow> cstate \<Rightarrow> string \<Rightarrow> string
     \<Rightarrow> string \<Rightarrow> error + cstate" where
  "accept_image R cfg source st img_name img_bytes label_name =
     (let st1 =
        (if apply_enhancement cfg then
           (case enhance_image R img_bytes img_name (brightness_factor cfg)
                   (contrast_factor cfg) (sharpen cfg) of
              Some enhanced_bytes \<Rightarrow> count_enhanced (write_file img_name enhanced_bytes st)
            | None \<Rightarrow> write_file img_name img_bytes st)
         else write_file img_name img_bytes st)
      in case map_of source label_name of
           Some (File label_bytes) \<Rightarrow> Inr (count_kept (write_file label_name label_bytes st1))
         | _ \<Rightarrow> Inl OSError)"

text \<open>One turn of the loop over \<open>image_files\<close> (lines 193 to 250).\<close>

definition process_image ::
  "('f, 'm, 'i) runtime \<Rightarrow> config \<Rightarrow> directory \<Rightarrow> cstate \<Rightarrow> string \<times> node
     \<Rightarrow> error + cstate" where
  "process_image R cfg source st img =
     (let img_name = fst img;
          label_name = path_stem img_name @ ''.txt''
      in if map_of source label_name = None then Inr (count_no_label st)
         else if \<not> validate_bounding_boxes R (map_of source label_name)
         then Inr (count_invalid_bbox st)
         else
           (case calculate_image_hash R (snd img) of
              Inl e \<Rightarrow> Inl e
            | Inr img_hash \<Rightarrow>
                if seen_hashes st img_hash \<noteq> None then Inr (count_duplicate st)
                else
                  (let st1 = st\<lparr>seen_hashes := (seen_hashes st)(img_hash \<mapsto> img_name)\<rparr>;
                       img_bytes = (case snd img of File bytes \<Rightarrow> bytes | Unopenable \<Rightarrow> [])
                   in case calculate_brightness R img_bytes of
                        Inr brightness \<Rightarrow>
                          if brightness < min_brightness cfg then Inr (count_too_dark st1)
                          else if brightness > max_brightness cfg
                          then Inr (count_too_bright st1)
                          else accept_image R cfg source st1 img_name img_bytes label_name
                      | Inl e \<Rightarrow>
                          accept_image R cfg source st1 img_name img_bytes label_name)))"

fun clean_loop ::
  "('f, 'm, 'i) runtime \<Rightarrow> config \<Rightarrow> directory \<Rightarrow> cstate \<Rightarrow> directory
     \<Rightarrow> error + cstate" where
  "clean_loop R cfg source st [] = Inr st"
| "clean_loop R cfg source st (img # rest) =
     (case process_image R cfg source st img of
        Inl e \<Rightarrow> Inl e
      | Inr st' \<Rightarrow> clean_loop R cfg source st' rest)"

text \<open>The whole run, with the final state, and \<open>clean_dataset\<close>, which returns the
  counters. The last argument is what the output directory held before the run.\<close>

definition clean_run ::
  "('f, 'm, 'i) runtime \<Rightarrow> config \<Rightarrow> directory \<Rightarrow> (string \<rightharpoonup> string)
     \<Rightarrow> error + cstate" where
  "clean_run R cfg source out0 =
     clean_loop R cfg source
       \<lparr>stats = initial_stats source, seen_hashes = Map.empty, output_dir = out0\<rparr>
       (image_files source)"

definition clean_dataset ::
  "('f, 'm, 'i) runtime \<Rightarrow> config \<Rightarrow> directory \<Rightarrow> (string \<rightharpoonup> string)
     \<Rightarrow> error + statistics" where
  "clean_dataset R cfg source out0 =
     (case clean_run R cfg source out0 of Inl e \<Rightarrow> Inl e | Inr st \<Rightarrow> Inr (stats st))"

definition default_config :: config where
  "default_config =
     \<lparr>min_brightness = 30, max_brightness = 220, apply_enhancement = False,
      brightness_factor = 11 / 10, contrast_factor = 11 / 10, sharpen = True\<rparr>"

section \<open>split_laptop_dataset.py: split_dataset\<close>

text \<open>
  In the splitter a float is the real number it denotes (a ratio that is NaN or infinite
  fails the first assertion like any ratio outside the interval), and the sum and the
  product of two floats are the exact results rounded by \<open>f_round\<close>. The rounding and
  \<open>random.shuffle\<close> after \<open>random.seed(seed)\<close> are parameters.
\<close>

record split_runtime =
  f_round :: "real \<Rightarrow> real"
  random_shuffle :: "int \<Rightarrow> (string \<times> string) list \<Rightarrow> (string \<times> string) list"

text \<open>\<open>glob("*.jpg")\<close>: the names of the directory that end with the extension, compared
  character by character (a POSIX path).\<close>

definition ends_with :: "string \<Rightarrow> string \<Rightarrow> bool" where
  "ends_with ext name =
     (length ext \<le> length name \<and> drop (length name - length ext) name = ext)"

definition glob_star :: "string \<Rightarrow> directory \<Rightarrow> string list" where
  "glob_star ext source = map fst (filter (\<lambda>(name, entry). ends_with ext name) source)"

text \<open>\<open>int(x)\<close> of a float truncates towards zero.\<close>

definition int_of_float :: "real \<Rightarrow> int" where
  "int_of_float x = (if x < 0 then \<lceil>x\<rceil> else \<lfloor>x\<rfloor>)"

text \<open>Python slices: a negative bound counts from the end, and every bound is clamped to
  the list.\<close>

definition slice_index :: "nat \<Rightarrow> int \<Rightarrow> nat" where
  "slice_index n i = (if i < 0 then nat (max 0 (int n + i)) else min n (nat i))"

definition slice_upto :: "'a list \<Rightarrow> int \<Rightarrow> 'a list" where
  "slice_upto xs hi = take (slice_index (length xs) hi) xs"

definition slice_between :: "'a list \<Rightarrow> int \<Rightarrow> int \<Rightarrow> 'a list" where
  "slice_between xs lo hi =
     take (slice_index (length xs) hi - slice_index (length xs) lo)
       (drop (slice_index (length xs) lo) xs)"

definition slice_from :: "'a list \<Rightarrow> int \<Rightarrow> 'a list" where
  "slice_from xs lo = drop (slice_index (length xs) lo) xs"

definition image_paths :: "directory \<Rightarrow> string list" where
  "image_paths source = sort (glob_star ''.jpg'' source @ glob_star ''.jpeg'' source)"

definition valid_images :: "directory \<Rightarrow> (string \<times> string) list" where
  "valid_images source =
     map (\<lambda>img_path. (img_path, with_suffix img_path ''.txt''))
       (filter (\<lambda>img_path. map_of source (with_suffix img_path ''.txt'') \<noteq> None)
          (image_paths source))"

record split_sets =
  train_set :: "(string \<times> string) list"
  val_set :: "(string \<times> string) list"
  test_set :: "(string \<times> string) list"
  n_train :: int
  n_val :: int
  n_test :: int

text \<open>Lines 35 to 67: the assertions, the enumeration, the shuffle, the sizes and the
  slices.\<close>

definition compute_split ::
  "split_runtime \<Rightarrow> directory \<Rightarrow> real \<Rightarrow> real \<Rightarrow> int \<Rightarrow> error + split_sets" where
  "compute_split S source train_ratio val_ratio seed =
     (if \<not> (0 < train_ratio \<and> train_ratio < 1 \<and> 0 < val_ratio \<and> val_ratio < 1)
      then Inl AssertionError
      else if \<not> (f_round S (train_ratio + val_ratio) < 1) then Inl AssertionError
      else if image_paths source = [] then Inl RuntimeError
      else if valid_images source = [] then Inl RuntimeError
      else
        (let shuffled = random_shuffle S seed (valid_images source);
             n_total = int (length shuffled);
             n_tr = int_of_float (f_round S (real_of_int n_total * train_ratio));
             n_v = int_of_float (f_round S (real_of_int n_total * val_ratio));
             n_te = n_total - n_tr - n_v
         in Inr \<lparr>train_set = slice_upto shuffled n_tr,
                 val_set = slice_between shuffled n_tr (n_tr + n_v),
                 test_set = slice_from shuffled (n_tr + n_v),
                 n_train = n_tr, n_val = n_v, n_test = n_te\<rparr>))"

text \<open>What the splitter does to the file system, in order: a directory made (with its
  parents) or a file of the source directory copied to a path under the output root.\<close>

datatype io = Mkdir "string list" | Copy string "string list"

fun copy_pairs :: "directory \<Rightarrow> string \<Rightarrow> (string \<times> string) list \<Rightarrow> error option \<times> io list" where
  "copy_pairs source split_name [] = (None, [])"
| "copy_pairs source split_name ((img_p, lbl_p) # rest) =
     (case map_of source img_p of
        Some (File img_bytes) \<Rightarrow>
          (case map_of source lbl_p of
             Some (File lbl_bytes) \<Rightarrow>
               (case copy_pairs source split_name rest of
                  (e, actions) \<Rightarrow>
                    (e, Copy img_p [split_name, ''images'', img_p]
                        # Copy lbl_p [split_name, ''labels'', lbl_p] # actions))
           | _ \<Rightarrow> (Some OSError, [Copy img_p [split_name, ''images'', img_p]]))
      | _ \<Rightarrow> (Some OSError, []))"

definition prepare_split ::
  "directory \<Rightarrow> string \<Rightarrow> (string \<times> string) list \<Rightarrow> error option \<times> io list" where
  "prepare_split source split_name pairs =
     (case copy_pairs source split_name pairs of
        (e, actions) \<Rightarrow>
          (e, Mkdir [split_name, ''images''] # Mkdir [split_name, ''labels''] # actions))"

definition split_dataset ::
  "split_runtime \<Rightarrow> directory \<Rightarrow> real \<Rightarrow> real \<Rightarrow> int \<Rightarrow> error option \<times> io list" where
  "split_dataset S source train_ratio val_ratio seed =
     (case compute_split S source train_ratio val_ratio seed of
        Inl e \<Rightarrow> (Some e, [])
      | Inr sets \<Rightarrow>
          (case prepare_split source ''train'' (train_set sets) of
             (Some e, a1) \<Rightarrow> (Some e, a1)
           | (None, a1) \<Rightarrow>
          (case prepare_split source ''val'' (val_set sets) of
             (Some e, a2) \<Rightarrow> (Some e, a1 @ a2)
           | (None, a2) \<Rightarrow>
          (case prepare_split source ''test'' (test_set sets) of
             (e, a3) \<Rightarrow> (e, a1 @ a2 @ a3)))))"

section \<open>A small runtime for concrete runs\<close>

text \<open>
  Exact arithmetic on the reals for \<open>float\<close>; \<open>int()\<close> and \<open>float()\<close> on a handful of
  literals; the identity for the hash; an image decoder that knows three images by their
  bytes (with their gray means) and fails on every other file; an enhancement that tags
  the bytes it writes.
\<close>

definition known_images :: "(string \<times> real) list" where
  "known_images = [(''dim'', 10), (''fine'', 120), (''glare'', 250)]"

definition test_runtime :: "(real, real, string) runtime" where
  "test_runtime =
     \<lparr>f_zero = 0, f_one = 1, f_two = 2,
      f_le = (\<lambda>a b. a \<le> b), f_lt = (\<lambda>a b. a < b),
      f_add = (\<lambda>a b. a + b), f_sub = (\<lambda>a b. a - b), f_div = (\<lambda>a b. a / b),
      py_int = map_of [(''0'', 0), (''1'', 1)],
      py_float = map_of [(''0'', 0), (''0.2'', 1 / 5), (''0.5'', 1 / 2), (''0.9'', 9 / 10),
                         (''1'', 1)],
      utf8_decode = Some,
      md5_hexdigest = (\<lambda>bytes. bytes),
      cv2_imread = map_of known_images,
      cv2_gray_mean = Some,
      pil_open = (\<lambda>bytes. if bytes \<in> set (map fst known_images) then Some bytes else None),
      pil_is_rgb = (\<lambda>img. True),
      pil_convert_rgb = Some,
      pil_brightness = (\<lambda>factor img. Some img),
      pil_contrast = (\<lambda>factor img. Some img),
      pil_sharpen = Some,
      pil_save = (\<lambda>name img. Some (''enhanced '' @ img))\<rparr>"

definition test_split_runtime :: split_runtime where
  "test_split_runtime = \<lparr>f_round = (\<lambda>x. x), random_shuffle = (\<lambda>seed pairs. rev pairs)\<rparr>"

text \<open>A label file with two valid entries, the second one a box that fills the image.\<close>

definition good_label :: string where
  "good_label = ''0 0.5 0.5 0.2 0.2'' @ [CHR 0x0A] @ ''1 0.5 0.5 1 1'' @ [CHR 0x0A]"

section \<open>Names used in the statements about clean_dataset\<close>


text \<open>The name of the label file the loop looks for beside an image, and the state after
  \<open>seen_hashes[img_hash] = img_path\<close>.\<close>

definition label_name_of :: "string \<times> node \<Rightarrow> string" where
  "label_name_of img = path_stem (fst img) @ ''.txt''"

definition remember_hash :: "('f, 'm, 'i) runtime \<Rightarrow> cstate \<Rightarrow> string \<Rightarrow> string \<Rightarrow> cstate" where
  "remember_hash R st bytes img_name =
     st\<lparr>seen_hashes := (seen_hashes st)(md5_hexdigest R bytes \<mapsto> img_name)\<rparr>"

text \<open>A source directory with one image for every outcome of the loop: kept, duplicate,
  too dark, no label, invalid label, too bright; and a file that is not an image.\<close>

definition demo_source :: directory where
  "demo_source =
     [(''a.jpg'', File ''fine''), (''a.txt'', File good_label),
      (''b.jpg'', File ''fine''), (''b.txt'', File good_label),
      (''c.png'', File ''dim''), (''c.txt'', File good_label),
      (''d.JPG'', File ''fine''),
      (''e.jpeg'', File ''glare''), (''e.txt'', File ''0 0.5''),
      (''f.jpg'', File ''glare''), (''f.txt'', File good_label),
      (''notes.md'', File ''hello'')]"

definition demo_start :: cstate where
  "demo_start = \<lparr>stats = initial_stats demo_source, seen_hashes = Map.empty,
     output_dir = Map.empty\<rparr>"

text \<open>The default configuration with the enhancement switched on.\<close>

definition enhancing_config :: config where
  "enhancing_config = default_config\<lparr>apply_enhancement := True\<rparr>"


text \<open>A runtime whose PIL cannot write the enhanced image (every \<open>img.save\<close> raises).\<close>

definition unsaving_runtime :: "(real, real, string) runtime" where
  "unsaving_runtime = test_runtime\<lparr>pil_save := (\<lambda>name img. None)\<rparr>"


definition corrupt_source :: directory where
  "corrupt_source = [(''g.jpg'', File ''garbage''), (''g.txt'', File good_label)]"

text \<open>A directory of ten labelled JPEG images, one labelled PNG image, one labelled image
  with an upper-case extension and one image without a label.\<close>

definition split_source :: directory where
  "split_source =
     [(''i3.jpg'', File ''fine''), (''i3.txt'', File good_label),
      (''i1.jpg'', File ''fine''), (''i1.txt'', File good_label),
      (''i2.jpeg'', File ''fine''), (''i2.txt'', File good_label),
      (''i0.jpg'', File ''fine''), (''i0.txt'', File good_label),
      (''i4.jpg'', File ''fine''), (''i4.txt'', File good_label),
      (''i5.jpg'', File ''fine''), (''i5.txt'', File good_label),
      (''i6.jpg'', File ''fine''), (''i6.txt'', File good_label),
      (''i7.jpg'', File ''fine''), (''i7.txt'', File good_label),
      (''i8.jpg'', File ''fine''), (''i8.txt'', File good_label),
      (''i9.jpg'', File ''fine''), (''i9.txt'', File good_label),
      (''p.png'', File ''fine''), (''p.txt'', File good_label),
      (''U.JPG'', File ''fine''), (''U.txt'', File good_label),
      (''lonely.jpg'', File ''fine'')]"


text \<open>
  A rounding that is the round-to-nearest-even of binary64 on the interval of the reals it
  sends to 1.0, from \<open>1 - 2^-54\<close> to \<open>1 + 2^-53\<close>, and that is exact elsewhere. The
  floats written \<open>0.7\<close> and \<open>0.3\<close> are \<open>3152519739159347 / 2^52\<close> and
  \<open>5404319552844595 / 2^54\<close>; their exact sum is \<open>1 - 2^-54\<close>, their float sum 1.0.
\<close>

definition near_one_runtime :: split_runtime where
  "near_one_runtime =
     \<lparr>f_round = (\<lambda>x. if 1 - 1 / 2 ^ 54 \<le> x \<and> x \<le> 1 + 1 / 2 ^ 53 then 1 else x),
      random_shuffle = (\<lambda>seed pairs. rev pairs)\<rparr>"

section \<open>Properties of validate_bounding_boxes\<close>

lemma check_lines_all: "check_lines R ls = (\<forall>l \<in> set ls. check_line R l)"
  by (induction ls) auto

lemma length5: "(length xs = 5) = (\<exists>a b c d e. xs = [a, b, c, d, e])"
proof
  assume "length xs = 5"
  then show "\<exists>a b c d e. xs = [a, b, c, d, e]"
    by (auto simp: length_Suc_conv eval_nat_numeral)
next
  assume "\<exists>a b c d e. xs = [a, b, c, d, e]"
  then show "length xs = 5" by auto
qed

lemma nth_five:
  "[a, b, c, d, e] ! 0 = a" "[a, b, c, d, e] ! 1 = b" "[a, b, c, d, e] ! 2 = c"
  "[a, b, c, d, e] ! 3 = d" "[a, b, c, d, e] ! 4 = e"
  by (simp_all add: eval_nat_numeral)

lemma check_line_entry_valid: "check_line R line = entry_valid R line"
proof (cases "length (py_split (py_strip line)) = 5")
  case False
  have "\<not> check_line R line"
    using False by (simp add: check_line_def Let_def)
  moreover have "\<not> entry_valid R line"
    using False by (auto simp: entry_valid_def)
  ultimately show ?thesis by simp
next
  case True
  then have "\<exists>a b c d e. py_split (py_strip line) = [a, b, c, d, e]"
    by (simp only: length5)
  then obtain a b c d e where p: "py_split (py_strip line) = [a, b, c, d, e]"
    by blast
  have ev: "entry_valid R line =
      (\<exists>class_id x y w h.
        py_int R a = Some class_id
        \<and> py_float R b = Some x \<and> py_float R c = Some y
        \<and> py_float R d = Some w \<and> py_float R e = Some h
        \<and> in_closed_unit R x \<and> in_closed_unit R y
        \<and> in_half_open_unit R w \<and> in_half_open_unit R h
        \<and> box_within R x w \<and> box_within R y h)"
    unfolding entry_valid_def p by simp
  show ?thesis
  proof (cases "py_int R a")
    case None
    then show ?thesis unfolding ev by (simp add: check_line_def Let_def p nth_five)
  next
    case ci: (Some class_id)
    show ?thesis
    proof (cases "py_float R b")
      case None
      then show ?thesis unfolding ev by (simp add: check_line_def Let_def p nth_five ci)
    next
      case fx: (Some x)
      show ?thesis
      proof (cases "py_float R c")
        case None
        then show ?thesis unfolding ev by (simp add: check_line_def Let_def p nth_five ci fx)
      next
        case fy: (Some y)
        show ?thesis
        proof (cases "py_float R d")
          case None
          then show ?thesis
            unfolding ev by (simp add: check_line_def Let_def p nth_five ci fx fy)
        next
          case fw: (Some w)
          show ?thesis
          proof (cases "py_float R e")
            case None
            then show ?thesis
              unfolding ev by (simp add: check_line_def Let_def p nth_five ci fx fy fw)
          next
            case fh: (Some h)
            have "check_line R line =
                (in_closed_unit R x \<and> in_closed_unit R y
                 \<and> in_half_open_unit R w \<and> in_half_open_unit R h
                 \<and> box_within R x w \<and> box_within R y h)"
              by (auto simp add: check_line_def Let_def p nth_five ci fx fy fw fh
                  in_closed_unit_def in_half_open_unit_def box_within_def)
            then show ?thesis unfolding ev ci fx fy fw fh by simp
          qed
        qed
      qed
    qed
  qed
qed

lemma validate_label_valid:
  "validate_bounding_boxes R label \<longleftrightarrow>
      (\<exists>bytes text. label = Some (File bytes) \<and> utf8_decode R bytes = Some text
         \<and> label_valid R (readlines text))"
proof (cases label)
  case None
  then show ?thesis by (simp add: validate_bounding_boxes_def)
next
  case lbl: (Some n)
  show ?thesis
  proof (cases n)
    case Unopenable
    with lbl show ?thesis by (simp add: validate_bounding_boxes_def)
  next
    case fl: (File bytes)
    show ?thesis
    proof (cases "utf8_decode R bytes")
      case None
      with lbl fl show ?thesis by (simp add: validate_bounding_boxes_def)
    next
      case dec: (Some decoded)
      have "validate_bounding_boxes R label = label_valid R (readlines decoded)"
        unfolding validate_bounding_boxes_def lbl fl
        by (simp add: dec label_valid_def Let_def check_lines_all check_line_entry_valid)
      then show ?thesis by (simp add: lbl fl dec)
    qed
  qed
qed

lemma readlines_Nil: "readlines [] = []"
  by (simp add: readlines_def)

text \<open>
  C1. For every label file, \<open>validate_bounding_boxes\<close> returns true if and only if the
  file is a readable text with at least one line, every line of which splits into exactly
  5 whitespace-separated tokens, the first an integer for \<open>int()\<close>, the other four
  numbers for \<open>float()\<close> with the centre in [0,1], the size in (0,1] and the derived
  box inside [0,1] on both axes with its minimum strictly below its maximum (comparisons
  and arithmetic being those of the float type); an empty label file is invalid.
\<close>

theorem validate_bounding_boxes_iff_label_valid:
  "(validate_bounding_boxes R label \<longleftrightarrow>
      (\<exists>bytes text. label = Some (File bytes) \<and> utf8_decode R bytes = Some text
         \<and> label_valid R (readlines text)))
   \<and> \<not> label_valid R (readlines [])"
  using validate_label_valid [of R label] by (simp add: readlines_Nil label_valid_def)


lemma good_label_accepted: "validate_bounding_boxes test_runtime (Some (File good_label))"
  by (simp add: good_label_def validate_bounding_boxes_def test_runtime_def readlines_def
      Let_def check_line_def py_split_def py_strip_def is_space_def)

theorem validate_bounding_boxes_iff_label_valid_witness:
  "validate_bounding_boxes test_runtime (Some (File good_label))
   \<and> label_valid test_runtime (readlines good_label)"
proof -
  have dec: "utf8_decode test_runtime = Some" by (simp add: test_runtime_def)
  from validate_bounding_boxes_iff_label_valid [of test_runtime "Some (File good_label)"]
    good_label_accepted
  show ?thesis by (auto simp: dec)
qed


section \<open>Properties of clean_dataset\<close>

lemmas count_defs = count_no_label_def count_invalid_bbox_def count_duplicate_def
  count_too_dark_def count_too_bright_def count_kept_def count_enhanced_def write_file_def

lemma accept_image_stats:
  assumes "accept_image R cfg source st img_name img_bytes label_name = Inr st'"
  shows "kept (stats st') = kept (stats st) + 1"
    and "no_label_removed (stats st') = no_label_removed (stats st)"
    and "invalid_bbox_removed (stats st') = invalid_bbox_removed (stats st)"
    and "duplicates_removed (stats st') = duplicates_removed (stats st)"
    and "too_dark_removed (stats st') = too_dark_removed (stats st)"
    and "too_bright_removed (stats st') = too_bright_removed (stats st)"
    and "total_images (stats st') = total_images (stats st)"
    and "enhanced (stats st') = enhanced (stats st)
         \<or> (apply_enhancement cfg \<and> enhanced (stats st') = enhanced (stats st) + 1)"
    and "seen_hashes st' = seen_hashes st"
  using assms
  by (auto simp: accept_image_def count_defs Let_def split: option.splits node.splits if_splits)


lemma process_image_cases [consumes 1, case_names no_label invalid_bbox duplicate too_dark
    too_bright accepted]:
  assumes run: "process_image R cfg source st img = Inr st'"
  obtains
    "map_of source (label_name_of img) = None" "st' = count_no_label st"
  | "map_of source (label_name_of img) \<noteq> None"
    "\<not> validate_bounding_boxes R (map_of source (label_name_of img))"
    "st' = count_invalid_bbox st"
  | bytes where "validate_bounding_boxes R (map_of source (label_name_of img))"
    "snd img = File bytes" "seen_hashes st (md5_hexdigest R bytes) \<noteq> None"
    "st' = count_duplicate st"
  | bytes brightness where "validate_bounding_boxes R (map_of source (label_name_of img))"
    "snd img = File bytes" "seen_hashes st (md5_hexdigest R bytes) = None"
    "calculate_brightness R bytes = Inr brightness" "brightness < min_brightness cfg"
    "st' = count_too_dark (remember_hash R st bytes (fst img))"
  | bytes brightness where "validate_bounding_boxes R (map_of source (label_name_of img))"
    "snd img = File bytes" "seen_hashes st (md5_hexdigest R bytes) = None"
    "calculate_brightness R bytes = Inr brightness" "\<not> brightness < min_brightness cfg"
    "brightness > max_brightness cfg"
    "st' = count_too_bright (remember_hash R st bytes (fst img))"
  | bytes where "validate_bounding_boxes R (map_of source (label_name_of img))"
    "snd img = File bytes" "seen_hashes st (md5_hexdigest R bytes) = None"
    "\<forall>brightness. calculate_brightness R bytes = Inr brightness \<longrightarrow>
        \<not> brightness < min_brightness cfg \<and> \<not> brightness > max_brightness cfg"
    "accept_image R cfg source (remember_hash R st bytes (fst img)) (fst img) bytes
       (label_name_of img) = Inr st'"
proof (cases "map_of source (label_name_of img) = None")
  case True
  with run have "st' = count_no_label st"
    by (simp add: process_image_def label_name_of_def Let_def del: not_None_eq)
  with True show ?thesis using that(1) by blast
next
  case present: False
  show ?thesis
  proof (cases "validate_bounding_boxes R (map_of source (label_name_of img))")
    case False
    with run present have "st' = count_invalid_bbox st"
      by (simp add: process_image_def label_name_of_def Let_def del: not_None_eq)
    with present False show ?thesis using that(2) by blast
  next
    case valid: True
    show ?thesis
    proof (cases "snd img")
      case Unopenable
      with run present valid have False
        by (simp add: process_image_def label_name_of_def Let_def calculate_image_hash_def
            del: not_None_eq)
      then show ?thesis ..
    next
      case fl: (File bytes)
      show ?thesis
      proof (cases "seen_hashes st (md5_hexdigest R bytes) = None")
        case False
        with run present valid fl have "st' = count_duplicate st"
          by (simp add: process_image_def label_name_of_def Let_def calculate_image_hash_def
            del: not_None_eq)
        with valid fl False show ?thesis using that(3) by blast
      next
        case fresh: True
        note facts = run present valid fl fresh
        note defs = process_image_def label_name_of_def Let_def calculate_image_hash_def
          remember_hash_def
        show ?thesis
        proof (cases "calculate_brightness R bytes")
          case err: (Inl e)
          have "accept_image R cfg source (remember_hash R st bytes (fst img)) (fst img) bytes
              (label_name_of img) = Inr st'"
            using facts err by (simp add: defs del: not_None_eq)
          with err valid fl fresh show ?thesis using that(6) by simp
        next
          case br: (Inr brightness)
          show ?thesis
          proof (cases "brightness < min_brightness cfg")
            case True
            have "st' = count_too_dark (remember_hash R st bytes (fst img))"
              using facts br True by (simp add: defs del: not_None_eq)
            with br True valid fl fresh show ?thesis using that(4) by blast
          next
            case notdark: False
            show ?thesis
            proof (cases "brightness > max_brightness cfg")
              case True
              have "st' = count_too_bright (remember_hash R st bytes (fst img))"
                using facts br notdark True by (simp add: defs del: not_None_eq)
              with br notdark True valid fl fresh show ?thesis using that(5) by blast
            next
              case False
              have "accept_image R cfg source (remember_hash R st bytes (fst img)) (fst img)
                  bytes (label_name_of img) = Inr st'"
                using facts br notdark False by (simp add: defs del: not_None_eq)
              with br notdark False valid fl fresh show ?thesis using that(6) by simp
            qed
          qed
        qed
      qed
    qed
  qed
qed









lemma demo_run: "clean_dataset test_runtime default_config demo_source Map.empty =
  Inr \<lparr>total_images = 6, duplicates_removed = 1, no_label_removed = 1,
        invalid_bbox_removed = 1, too_dark_removed = 1,
        too_bright_removed = 1, kept = 1, enhanced = 0\<rparr>"
  by code_simp



lemma process_image_enhanced:
  assumes "process_image R cfg source st img = Inr st'"
  shows "(enhanced (stats st) \<le> kept (stats st) \<longrightarrow> enhanced (stats st') \<le> kept (stats st'))
    \<and> (\<not> apply_enhancement cfg \<longrightarrow> enhanced (stats st') = enhanced (stats st))"
  using assms
proof (cases rule: process_image_cases)
  case (accepted bytes)
  note acc = accept_image_stats [OF accepted(5)]
  from acc(1) acc(8) show ?thesis by (auto simp: remember_hash_def)
qed (simp_all add: count_defs remember_hash_def)

lemma clean_loop_enhanced:
  "clean_loop R cfg source st imgs = Inr st' \<Longrightarrow>
     (enhanced (stats st) \<le> kept (stats st) \<longrightarrow> enhanced (stats st') \<le> kept (stats st'))
     \<and> (\<not> apply_enhancement cfg \<longrightarrow> enhanced (stats st') = enhanced (stats st))"
proof (induction imgs arbitrary: st)
  case Nil
  then show ?case by simp
next
  case (Cons img rest)
  from Cons.prems obtain st1 where
    s1: "process_image R cfg source st img = Inr st1"
    and s2: "clean_loop R cfg source st1 rest = Inr st'"
    by (auto split: sum.splits)
  from Cons.IH [OF s2] process_image_enhanced [OF s1]
  show ?case by simp
qed

text \<open>
  C7. In every cleaning run the statistics satisfy enhanced <= kept, and when the
  enhancement is disabled, enhanced = 0 at the end of the run.
\<close>

theorem clean_dataset_enhanced_le_kept:
  "clean_dataset R cfg source out0 = Inr s \<Longrightarrow>
     enhanced s \<le> kept s \<and> (\<not> apply_enhancement cfg \<longrightarrow> enhanced s = 0)"
proof -
  assume "clean_dataset R cfg source out0 = Inr s"
  then obtain st' where
    run: "clean_loop R cfg source
       \<lparr>stats = initial_stats source, seen_hashes = Map.empty, output_dir = out0\<rparr>
       (image_files source) = Inr st'" and s: "s = stats st'"
    by (auto simp: clean_dataset_def clean_run_def split: sum.splits)
  from clean_loop_enhanced [OF run] show ?thesis
    by (simp add: s initial_stats_def)
qed

lemma demo_run_enhancing:
  "clean_dataset test_runtime enhancing_config demo_source Map.empty =
     Inr \<lparr>total_images = 6, duplicates_removed = 1, no_label_removed = 1,
        invalid_bbox_removed = 1, too_dark_removed = 1,
        too_bright_removed = 1, kept = 1, enhanced = 1\<rparr>"
  by code_simp

theorem clean_dataset_enhanced_le_kept_witness:
  "clean_dataset test_runtime enhancing_config demo_source Map.empty =
     Inr \<lparr>total_images = 6, duplicates_removed = 1, no_label_removed = 1,
        invalid_bbox_removed = 1, too_dark_removed = 1,
        too_bright_removed = 1, kept = 1, enhanced = 1\<rparr>
   \<and> (1 :: int) \<le> 1
   \<and> clean_dataset test_runtime default_config demo_source Map.empty =
     Inr \<lparr>total_images = 6, duplicates_removed = 1, no_label_removed = 1,
        invalid_bbox_removed = 1, too_dark_removed = 1,
        too_bright_removed = 1, kept = 1, enhanced = 0\<rparr>
   \<and> \<not> apply_enhancement default_config
   \<and> enhanced \<lparr>total_images = 6, duplicates_removed = 1, no_label_removed = 1,
        invalid_bbox_removed = 1, too_dark_removed = 1,
        too_bright_removed = 1, kept = 1, enhanced = (0::int)\<rparr> = 0"
  using clean_dataset_enhanced_le_kept [OF demo_run_enhancing]
    clean_dataset_enhanced_le_kept [OF demo_run] demo_run demo_run_enhancing
  by (simp add: default_config_def)



lemma validate_present: "validate_bounding_boxes R label \<Longrightarrow> label \<noteq> None"
  by (cases label) (simp_all add: validate_bounding_boxes_def)




lemma process_image_accept:
  assumes "validate_bounding_boxes R (map_of source (label_name_of img))"
    and "snd img = File bytes" and "seen_hashes st (md5_hexdigest R bytes) = None"
    and "\<forall>brightness. calculate_brightness R bytes = Inr brightness \<longrightarrow>
        \<not> brightness < min_brightness cfg \<and> \<not> brightness > max_brightness cfg"
  shows "process_image R cfg source st img =
     accept_image R cfg source (remember_hash R st bytes (fst img)) (fst img) bytes
       (label_name_of img)"
proof (cases "calculate_brightness R bytes")
  case (Inl e)
  with assms validate_present [OF assms(1)] show ?thesis
    by (simp add: process_image_def label_name_of_def Let_def calculate_image_hash_def
      remember_hash_def del: not_None_eq)
next
  case (Inr brightness)
  with assms(4) have "\<not> brightness < min_brightness cfg" "\<not> brightness > max_brightness cfg"
    by auto
  with Inr assms(1-3) validate_present [OF assms(1)] show ?thesis
    by (simp add: process_image_def label_name_of_def Let_def calculate_image_hash_def
      remember_hash_def del: not_None_eq)
qed







lemma stem_suffix: "path_stem name @ path_suffix name = name"
  by (simp add: path_stem_def path_suffix_def Let_def)

lemma image_name_is_not_label_name:
  assumes "py_lower (path_suffix name) \<in> set image_extensions"
  shows "name \<noteq> path_stem name @ ''.txt''"
proof
  assume "name = path_stem name @ ''.txt''"
  then have "path_stem name @ path_suffix name = path_stem name @ ''.txt''"
    by (simp only: stem_suffix)
  then have "path_suffix name = ''.txt''" by simp
  with assms have "py_lower ''.txt'' \<in> set image_extensions" by simp
  then show False by (simp add: py_lower_def lower_char_def image_extensions_def)
qed

lemma validate_is_file:
  "validate_bounding_boxes R label \<Longrightarrow> \<exists>label_bytes. label = Some (File label_bytes)"
  using validate_label_valid [of R label] by blast

text \<open>
  C6. For every accepted image (valid label, new hash, brightness in range or not
  measurable): the turn of the loop returns, the label file is copied byte-identical under
  its name, and kept is incremented. When the enhancement is enabled and fails, the output
  image is a byte-identical copy of the source image and enhanced is not incremented;
  when it is disabled the image is copied likewise; when it succeeds the output image is
  the enhanced one and enhanced is incremented.
\<close>

theorem accepted_image_is_copied_with_its_label:
  assumes "validate_bounding_boxes R (map_of source (label_name_of img))"
    and "snd img = File bytes"
    and "seen_hashes st (md5_hexdigest R bytes) = None"
    and "\<forall>brightness. calculate_brightness R bytes = Inr brightness \<longrightarrow>
        \<not> brightness < min_brightness cfg \<and> \<not> brightness > max_brightness cfg"
    and "py_lower (path_suffix (fst img)) \<in> set image_extensions"
  shows "\<exists>st' label_bytes.
      process_image R cfg source st img = Inr st'
      \<and> map_of source (label_name_of img) = Some (File label_bytes)
      \<and> output_dir st' (label_name_of img) = Some label_bytes
      \<and> kept (stats st') = kept (stats st) + 1
      \<and> (apply_enhancement cfg
           \<and> enhance_image R bytes (fst img) (brightness_factor cfg) (contrast_factor cfg)
                (sharpen cfg) = None \<longrightarrow>
          output_dir st' (fst img) = Some bytes
          \<and> enhanced (stats st') = enhanced (stats st))
      \<and> (\<not> apply_enhancement cfg \<longrightarrow>
          output_dir st' (fst img) = Some bytes
          \<and> enhanced (stats st') = enhanced (stats st))
      \<and> (\<forall>enhanced_bytes. apply_enhancement cfg
           \<and> enhance_image R bytes (fst img) (brightness_factor cfg) (contrast_factor cfg)
                (sharpen cfg) = Some enhanced_bytes \<longrightarrow>
          output_dir st' (fst img) = Some enhanced_bytes
          \<and> enhanced (stats st') = enhanced (stats st) + 1)"
proof -
  from validate_is_file [OF assms(1)] obtain label_bytes where
    lbl: "map_of source (label_name_of img) = Some (File label_bytes)" by blast
  have ne: "fst img \<noteq> label_name_of img"
    using image_name_is_not_label_name [OF assms(5)] by (simp add: label_name_of_def)
  have step: "process_image R cfg source st img =
      accept_image R cfg source (remember_hash R st bytes (fst img)) (fst img) bytes
        (label_name_of img)"
    using assms(1-4) by (rule process_image_accept)
  show ?thesis
  proof (cases "apply_enhancement cfg")
    case False
    then show ?thesis
      using lbl ne by (simp add: step accept_image_def count_defs remember_hash_def)
  next
    case enabled: True
    show ?thesis
    proof (cases "enhance_image R bytes (fst img) (brightness_factor cfg) (contrast_factor cfg)
                (sharpen cfg)")
      case None
      then show ?thesis
        using lbl ne enabled by (simp add: step accept_image_def count_defs remember_hash_def)
    next
      case (Some enhanced_bytes)
      then show ?thesis
        using lbl ne enabled by (simp add: step accept_image_def count_defs remember_hash_def)
    qed
  qed
qed

lemma demo_unsaving_facts:
  "validate_bounding_boxes unsaving_runtime
     (map_of demo_source (label_name_of (''a.jpg'', File ''fine'')))"
  "calculate_brightness unsaving_runtime ''fine'' = Inr 120"
  "py_lower (path_suffix ''a.jpg'') \<in> set image_extensions"
  "enhance_image unsaving_runtime ''fine'' ''a.jpg'' (brightness_factor enhancing_config)
     (contrast_factor enhancing_config) (sharpen enhancing_config) = None"
  "label_name_of (''a.jpg'', File ''fine'') = ''a.txt''"
  "map_of demo_source ''a.txt'' = Some (File good_label)"
  "apply_enhancement enhancing_config"
  by code_simp+

theorem accepted_image_is_copied_with_its_label_witness:
  "validate_bounding_boxes unsaving_runtime
     (map_of demo_source (label_name_of (''a.jpg'', File ''fine'')))
   \<and> seen_hashes demo_start (md5_hexdigest unsaving_runtime ''fine'') = None
   \<and> calculate_brightness unsaving_runtime ''fine'' = Inr 120
   \<and> \<not> (120::real) < min_brightness enhancing_config
   \<and> \<not> (120::real) > max_brightness enhancing_config
   \<and> py_lower (path_suffix ''a.jpg'') \<in> set image_extensions
   \<and> apply_enhancement enhancing_config
   \<and> enhance_image unsaving_runtime ''fine'' ''a.jpg'' (brightness_factor enhancing_config)
        (contrast_factor enhancing_config) (sharpen enhancing_config) = None
   \<and> (\<exists>st'. process_image unsaving_runtime enhancing_config demo_source demo_start
                 (''a.jpg'', File ''fine'') = Inr st'
          \<and> output_dir st' ''a.txt'' = Some good_label
          \<and> output_dir st' ''a.jpg'' = Some ''fine''
          \<and> kept (stats st') = kept (stats demo_start) + 1
          \<and> enhanced (stats st') = enhanced (stats demo_start))"
proof -
  have fresh: "seen_hashes demo_start (md5_hexdigest unsaving_runtime ''fine'') = None"
    by (simp add: demo_start_def)
  have th: "\<not> (120::real) < min_brightness enhancing_config"
    "\<not> (120::real) > max_brightness enhancing_config"
    by (simp_all add: enhancing_config_def default_config_def)
  have bright: "\<forall>brightness. calculate_brightness unsaving_runtime ''fine'' = Inr brightness \<longrightarrow>
        \<not> brightness < min_brightness enhancing_config
        \<and> \<not> brightness > max_brightness enhancing_config"
    using th by (simp add: demo_unsaving_facts(2))
  from accepted_image_is_copied_with_its_label
    [of unsaving_runtime demo_source "(''a.jpg'', File ''fine'')" "''fine''" demo_start
      enhancing_config, OF demo_unsaving_facts(1) _ fresh bright]
    demo_unsaving_facts(3)
  obtain st' label_bytes where
    r: "process_image unsaving_runtime enhancing_config demo_source demo_start
          (''a.jpg'', File ''fine'') = Inr st'"
      "map_of demo_source (label_name_of (''a.jpg'', File ''fine'')) = Some (File label_bytes)"
      "output_dir st' (label_name_of (''a.jpg'', File ''fine'')) = Some label_bytes"
      "kept (stats st') = kept (stats demo_start) + 1"
      "apply_enhancement enhancing_config
           \<and> enhance_image unsaving_runtime ''fine'' (fst (''a.jpg'', File ''fine''))
                (brightness_factor enhancing_config) (contrast_factor enhancing_config)
                (sharpen enhancing_config) = None \<longrightarrow>
          output_dir st' (fst (''a.jpg'', File ''fine'')) = Some ''fine''
          \<and> enhanced (stats st') = enhanced (stats demo_start)"
    by auto
  from r(2) have lb: "label_bytes = good_label"
    by (simp add: demo_unsaving_facts(5,6))
  from r(5) have e: "output_dir st' ''a.jpg'' = Some ''fine''"
    "enhanced (stats st') = enhanced (stats demo_start)"
    using demo_unsaving_facts(4,7) by simp_all
  from r(1) r(3) r(4) lb e have "\<exists>st'. process_image unsaving_runtime enhancing_config
        demo_source demo_start (''a.jpg'', File ''fine'') = Inr st'
          \<and> output_dir st' ''a.txt'' = Some good_label
          \<and> output_dir st' ''a.jpg'' = Some ''fine''
          \<and> kept (stats st') = kept (stats demo_start) + 1
          \<and> enhanced (stats st') = enhanced (stats demo_start)"
    by (auto simp: demo_unsaving_facts(5))
  with fresh th demo_unsaving_facts show ?thesis by (intro conjI)
qed
















text \<open>
  C4. An image that \<open>cv2.imread\<close> cannot decode does not raise: \<open>calculate_brightness\<close>
  returns 0.0 for it, and with the default thresholds the image, whose label is valid, is
  counted as too dark and not kept.
\<close>

theorem undecodable_image_is_counted_too_dark:
  "cv2_imread test_runtime ''garbage'' = None
   \<and> calculate_brightness test_runtime ''garbage'' = Inr 0
   \<and> validate_bounding_boxes test_runtime
       (map_of corrupt_source (label_name_of (''g.jpg'', File ''garbage'')))
   \<and> clean_dataset test_runtime default_config corrupt_source Map.empty =
       Inr \<lparr>total_images = 1, duplicates_removed = 0, no_label_removed = 0,
        invalid_bbox_removed = 0, too_dark_removed = 1,
        too_bright_removed = 0, kept = 0, enhanced = 0\<rparr>"
  by code_simp

text \<open>
  C9. For every ratio pair whose sum, as the program computes it (the float sum, that is the
  exact sum rounded), is at least 1, or with a ratio outside the open interval (0,1), the
  splitter fails its validation whatever the source directory holds, and performs no action
  on the file system: no directory is made and no file is copied.
\<close>

theorem split_dataset_rejects_bad_ratios:
  assumes "train_ratio \<le> 0 \<or> 1 \<le> train_ratio \<or> val_ratio \<le> 0 \<or> 1 \<le> val_ratio
         \<or> 1 \<le> f_round S (train_ratio + val_ratio)"
  shows "compute_split S source train_ratio val_ratio seed = Inl AssertionError
    \<and> split_dataset S source train_ratio val_ratio seed = (Some AssertionError, [])"
proof -
  have c: "compute_split S source train_ratio val_ratio seed = Inl AssertionError"
  proof (cases "0 < train_ratio \<and> train_ratio < 1 \<and> 0 < val_ratio \<and> val_ratio < 1")
    case False
    then show ?thesis by (simp add: compute_split_def)
  next
    case True
    with assms have "1 \<le> f_round S (train_ratio + val_ratio)" by auto
    then have "\<not> f_round S (train_ratio + val_ratio) < 1" by simp
    with True show ?thesis by (simp add: compute_split_def)
  qed
  then show ?thesis by (simp add: split_dataset_def)
qed

lemma test_round: "mono (f_round test_split_runtime)" "f_round test_split_runtime 1 = 1"
  "\<forall>x. 0 \<le> x \<longrightarrow> 0 \<le> f_round test_split_runtime x"
  by (simp_all add: test_split_runtime_def mono_def)

text \<open>A rounding that is monotone and keeps 1 sends every exact sum that is at least 1 to a
  float sum that is at least 1.\<close>

lemma rounded_sum_at_least_one:
  assumes "mono (f_round S)" and "f_round S 1 = 1" and "1 \<le> train_ratio + val_ratio"
  shows "1 \<le> f_round S (train_ratio + val_ratio)"
proof -
  from assms(1) assms(3) have "f_round S 1 \<le> f_round S (train_ratio + val_ratio)"
    by (rule monoD)
  with assms(2) show ?thesis by simp
qed

lemma near_one_sum:
  "(3152519739159347 / 2 ^ 52 + 5404319552844595 / 2 ^ 54 :: real) < 1"
  "1 \<le> f_round near_one_runtime (3152519739159347 / 2 ^ 52 + 5404319552844595 / 2 ^ 54)"
  "1 \<le> f_round test_split_runtime (1 / 2 + 1 / 2)"
  "(1::real) \<le> 3 / 2"
  by (simp_all add: near_one_runtime_def test_split_runtime_def)

theorem split_dataset_rejects_bad_ratios_witness:
  "(3152519739159347 / 2 ^ 52 + 5404319552844595 / 2 ^ 54 :: real) < 1
   \<and> 1 \<le> f_round near_one_runtime (3152519739159347 / 2 ^ 52 + 5404319552844595 / 2 ^ 54)
   \<and> split_dataset near_one_runtime split_source
        (3152519739159347 / 2 ^ 52) (5404319552844595 / 2 ^ 54) 42
        = (Some AssertionError, [])
   \<and> 1 \<le> f_round test_split_runtime (1 / 2 + 1 / 2)
   \<and> split_dataset test_split_runtime split_source (1 / 2) (1 / 2) 42
        = (Some AssertionError, [])
   \<and> (1::real) \<le> 3 / 2
   \<and> split_dataset test_split_runtime split_source (3 / 2) (1 / 4) 42
        = (Some AssertionError, [])"
proof -
  have a: "split_dataset near_one_runtime split_source
        (3152519739159347 / 2 ^ 52) (5404319552844595 / 2 ^ 54) 42
        = (Some AssertionError, [])"
    using split_dataset_rejects_bad_ratios
      [of "3152519739159347 / 2 ^ 52" "5404319552844595 / 2 ^ 54" near_one_runtime
        split_source 42] near_one_sum(2)
    by blast
  have b: "split_dataset test_split_runtime split_source (1 / 2) (1 / 2) 42
        = (Some AssertionError, [])"
    using split_dataset_rejects_bad_ratios
      [of "1 / 2" "1 / 2" test_split_runtime split_source 42] near_one_sum(3)
    by blast
  have c: "split_dataset test_split_runtime split_source (3 / 2) (1 / 4) 42
        = (Some AssertionError, [])"
    using split_dataset_rejects_bad_ratios
      [of "3 / 2" "1 / 4" test_split_runtime split_source 42] near_one_sum(4)
    by blast
  show ?thesis by (intro conjI near_one_sum a b c)
qed

lemma slice_upto_take: "0 \<le> a \<Longrightarrow> slice_upto xs a = take (nat a) xs"
  by (simp add: slice_upto_def slice_index_def min_def)

lemma slice_from_drop: "0 \<le> a \<Longrightarrow> slice_from xs a = drop (nat a) xs"
  by (simp add: slice_from_def slice_index_def min_def)

lemma slice_between_take_drop:
  assumes "0 \<le> a" and "0 \<le> b"
  shows "slice_between xs a (a + b) = take (nat b) (drop (nat a) xs)"
proof (cases "nat a \<le> length xs")
  case False
  with assms show ?thesis by (simp add: slice_between_def slice_index_def min_def)
next
  case inside: True
  show ?thesis
  proof (cases "nat (a + b) \<le> length xs")
    case True
    with assms inside have "slice_between xs a (a + b) = take (nat (a + b) - nat a) (drop (nat a) xs)"
      by (simp add: slice_between_def slice_index_def min_def)
    moreover from assms have "nat (a + b) - nat a = nat b" by simp
    ultimately show ?thesis by simp
  next
    case False
    with assms inside have "slice_between xs a (a + b) = take (length xs - nat a) (drop (nat a) xs)"
      by (simp add: slice_between_def slice_index_def min_def)
    moreover from False assms have "length xs - nat a \<le> nat b" by linarith
    ultimately show ?thesis by simp
  qed
qed

lemma three_segments: "take a xs @ take b (drop a xs) @ drop (a + b) xs = xs"
proof -
  have "take b (drop a xs) @ drop b (drop a xs) = drop a xs" by (rule append_take_drop_id)
  then have "take b (drop a xs) @ drop (a + b) xs = drop a xs" by (simp add: add.commute)
  then show ?thesis by simp
qed

lemma int_of_float_floor: "0 \<le> x \<Longrightarrow> int_of_float x = \<lfloor>x\<rfloor>"
  by (simp add: int_of_float_def)

lemma glob_star_filter: "glob_star ext source = filter (ends_with ext) (map fst source)"
  by (induction source) (auto simp: glob_star_def)

lemma not_jpg_and_jpeg: "ends_with ''.jpg'' name \<Longrightarrow> \<not> ends_with ''.jpeg'' name"
proof
  assume a: "ends_with ''.jpg'' name" and b: "ends_with ''.jpeg'' name"
  from a obtain p where p: "name = p @ ''.jpg''"
    by (metis append_take_drop_id ends_with_def)
  from b obtain q where q: "name = q @ ''.jpeg''"
    by (metis append_take_drop_id ends_with_def)
  from p q have "rev (p @ ''.jpg'') = rev (q @ ''.jpeg'')" by simp
  then show False by simp
qed

lemma distinct_image_paths:
  assumes "distinct (map fst source)"
  shows "distinct (image_paths source)"
proof -
  have "distinct (glob_star ''.jpg'' source @ glob_star ''.jpeg'' source)"
    using assms not_jpg_and_jpeg by (auto simp: glob_star_filter)
  then show ?thesis by (simp add: image_paths_def)
qed

lemma distinct_valid_images:
  assumes "distinct (map fst source)"
  shows "distinct (valid_images source)"
  unfolding valid_images_def
  by (rule distinct_map [THEN iffD2])
    (simp add: distinct_image_paths [OF assms] inj_on_def)


text \<open>
  C8. For every source directory with at least one valid image/label pair and every ratio
  pair that passes the assertions, the splitter returns with
  n_train = floor(n_total * train_ratio), n_val = floor(n_total * val_ratio) (the products
  being the rounded float products) and n_test = n_total - n_train - n_val, so that
  n_train + n_val + n_test = n_total; the three sets are the contiguous segments
  [0, n_train), [n_train, n_train + n_val) and the rest of the shuffled list, in its order;
  together they hold every valid pair, and when the names of the directory are distinct no
  pair occurs twice, in one set or in two.
\<close>

theorem compute_split_partitions_valid_pairs:
  assumes "0 < train_ratio" and "train_ratio < 1" and "0 < val_ratio" and "val_ratio < 1"
    and "f_round S (train_ratio + val_ratio) < 1"
    and "\<forall>x. 0 \<le> x \<longrightarrow> 0 \<le> f_round S x"
    and "mset (random_shuffle S seed (valid_images source)) = mset (valid_images source)"
    and "valid_images source \<noteq> []"
  shows "\<exists>sets.
      compute_split S source train_ratio val_ratio seed = Inr sets
      \<and> n_train sets = \<lfloor>f_round S (real (length (valid_images source)) * train_ratio)\<rfloor>
      \<and> n_val sets = \<lfloor>f_round S (real (length (valid_images source)) * val_ratio)\<rfloor>
      \<and> n_test sets = int (length (valid_images source)) - n_train sets - n_val sets
      \<and> n_train sets + n_val sets + n_test sets = int (length (valid_images source))
      \<and> train_set sets = take (nat (n_train sets)) (random_shuffle S seed (valid_images source))
      \<and> val_set sets = take (nat (n_val sets))
           (drop (nat (n_train sets)) (random_shuffle S seed (valid_images source)))
      \<and> test_set sets = drop (nat (n_train sets) + nat (n_val sets))
           (random_shuffle S seed (valid_images source))
      \<and> train_set sets @ val_set sets @ test_set sets
           = random_shuffle S seed (valid_images source)
      \<and> mset (train_set sets) + mset (val_set sets) + mset (test_set sets)
           = mset (valid_images source)
      \<and> (distinct (map fst source) \<longrightarrow>
            distinct (train_set sets @ val_set sets @ test_set sets))"
proof -
  let ?valid = "valid_images source"
  let ?sh = "random_shuffle S seed ?valid"
  let ?n = "int (length ?sh)"
  let ?a = "int_of_float (f_round S (real_of_int ?n * train_ratio))"
  let ?b = "int_of_float (f_round S (real_of_int ?n * val_ratio))"
  let ?sets = "\<lparr>train_set = slice_upto ?sh ?a, val_set = slice_between ?sh ?a (?a + ?b),
     test_set = slice_from ?sh (?a + ?b), n_train = ?a, n_val = ?b, n_test = ?n - ?a - ?b\<rparr>"
  have len: "length ?sh = length ?valid"
    using assms(7) by (rule mset_eq_length)
  have paths: "image_paths source \<noteq> []"
    using assms(8) by (auto simp: valid_images_def)
  have run: "compute_split S source train_ratio val_ratio seed = Inr ?sets"
    using assms(1-5,8) paths by (simp add: compute_split_def Let_def)
  have pa: "0 \<le> f_round S (real_of_int ?n * train_ratio)"
    using assms(1,6) by simp
  have pb: "0 \<le> f_round S (real_of_int ?n * val_ratio)"
    using assms(3,6) by simp
  have a: "?a = \<lfloor>f_round S (real (length ?valid) * train_ratio)\<rfloor>"
    using pa by (simp add: int_of_float_floor len)
  have b: "?b = \<lfloor>f_round S (real (length ?valid) * val_ratio)\<rfloor>"
    using pb by (simp add: int_of_float_floor len)
  have a0: "0 \<le> ?a" using pa by (simp add: int_of_float_floor)
  have b0: "0 \<le> ?b" using pb by (simp add: int_of_float_floor)
  have tr: "slice_upto ?sh ?a = take (nat ?a) ?sh"
    using a0 by (rule slice_upto_take)
  have va: "slice_between ?sh ?a (?a + ?b) = take (nat ?b) (drop (nat ?a) ?sh)"
    using a0 b0 by (rule slice_between_take_drop)
  have te: "slice_from ?sh (?a + ?b) = drop (nat ?a + nat ?b) ?sh"
    using a0 b0 by (simp add: slice_from_drop nat_add_distrib)
  have cat: "slice_upto ?sh ?a @ slice_between ?sh ?a (?a + ?b) @ slice_from ?sh (?a + ?b) = ?sh"
    unfolding tr va te by (rule three_segments)
  have ms: "mset (slice_upto ?sh ?a) + mset (slice_between ?sh ?a (?a + ?b))
      + mset (slice_from ?sh (?a + ?b)) = mset ?valid"
  proof -
    have "mset (slice_upto ?sh ?a @ slice_between ?sh ?a (?a + ?b)
        @ slice_from ?sh (?a + ?b)) = mset ?sh"
      by (simp only: cat)
    with assms(7) show ?thesis by (simp add: ac_simps)
  qed
  have di: "distinct (map fst source) \<longrightarrow>
      distinct (slice_upto ?sh ?a @ slice_between ?sh ?a (?a + ?b) @ slice_from ?sh (?a + ?b))"
  proof
    assume "distinct (map fst source)"
    then have "distinct ?valid" by (rule distinct_valid_images)
    with assms(7) have "distinct ?sh" by (metis mset_eq_imp_distinct_iff)
    then show "distinct (slice_upto ?sh ?a @ slice_between ?sh ?a (?a + ?b)
        @ slice_from ?sh (?a + ?b))"
      by (simp only: cat)
  qed
  have "compute_split S source train_ratio val_ratio seed = Inr ?sets
      \<and> n_train ?sets = \<lfloor>f_round S (real (length ?valid) * train_ratio)\<rfloor>
      \<and> n_val ?sets = \<lfloor>f_round S (real (length ?valid) * val_ratio)\<rfloor>
      \<and> n_test ?sets = int (length ?valid) - n_train ?sets - n_val ?sets
      \<and> n_train ?sets + n_val ?sets + n_test ?sets = int (length ?valid)
      \<and> train_set ?sets = take (nat (n_train ?sets)) ?sh
      \<and> val_set ?sets = take (nat (n_val ?sets)) (drop (nat (n_train ?sets)) ?sh)
      \<and> test_set ?sets = drop (nat (n_train ?sets) + nat (n_val ?sets)) ?sh
      \<and> train_set ?sets @ val_set ?sets @ test_set ?sets = ?sh
      \<and> mset (train_set ?sets) + mset (val_set ?sets) + mset (test_set ?sets) = mset ?valid
      \<and> (distinct (map fst source) \<longrightarrow>
            distinct (train_set ?sets @ val_set ?sets @ test_set ?sets))"
    using run a b tr va te cat ms di by (simp add: len)
  then show ?thesis by (rule exI)
qed


lemma split_source_facts:
  "length (valid_images split_source) = 10"
  "valid_images split_source \<noteq> []"
  "distinct (map fst split_source)"
  by code_simp+

theorem compute_split_partitions_valid_pairs_witness:
  "(0::real) < 7 / 10 \<and> (7 / 10 :: real) < 1 \<and> (0::real) < 15 / 100 \<and> (15 / 100 :: real) < 1
   \<and> f_round test_split_runtime (7 / 10 + 15 / 100) < 1
   \<and> mset (random_shuffle test_split_runtime 42 (valid_images split_source))
        = mset (valid_images split_source)
   \<and> valid_images split_source \<noteq> []
   \<and> distinct (map fst split_source)
   \<and> (\<exists>sets. compute_split test_split_runtime split_source (7 / 10) (15 / 100) 42 = Inr sets
         \<and> n_train sets = 7 \<and> n_val sets = 1 \<and> n_test sets = 2
         \<and> mset (train_set sets) + mset (val_set sets) + mset (test_set sets)
              = mset (valid_images split_source)
         \<and> distinct (train_set sets @ val_set sets @ test_set sets))"
proof -
  have r: "f_round test_split_runtime (7 / 10 + 15 / 100) < 1"
    by (simp add: test_split_runtime_def)
  have p: "mset (random_shuffle test_split_runtime 42 (valid_images split_source))
        = mset (valid_images split_source)"
    by (simp add: test_split_runtime_def)
  from compute_split_partitions_valid_pairs
    [of "7 / 10" "15 / 100" test_split_runtime 42 split_source, OF _ _ _ _ r test_round(3) p
      split_source_facts(2)]
  obtain sets where
    s: "compute_split test_split_runtime split_source (7 / 10) (15 / 100) 42 = Inr sets"
      "n_train sets = \<lfloor>f_round test_split_runtime
          (real (length (valid_images split_source)) * (7 / 10))\<rfloor>"
      "n_val sets = \<lfloor>f_round test_split_runtime
          (real (length (valid_images split_source)) * (15 / 100))\<rfloor>"
      "n_test sets = int (length (valid_images split_source)) - n_train sets - n_val sets"
      "mset (train_set sets) + mset (val_set sets) + mset (test_set sets)
           = mset (valid_images split_source)"
      "distinct (map fst split_source) \<longrightarrow>
            distinct (train_set sets @ val_set sets @ test_set sets)"
    by auto
  have a: "n_train sets = 7"
    using s(2) by (simp add: split_source_facts(1) test_split_runtime_def)
  have b: "n_val sets = 1"
    using s(3) by (simp add: split_source_facts(1) test_split_runtime_def)
  have c: "n_test sets = 2"
    using s(4) a b by (simp add: split_source_facts(1))
  from s(1) a b c s(5) s(6) split_source_facts(3)
  have "\<exists>sets. compute_split test_split_runtime split_source (7 / 10) (15 / 100) 42 = Inr sets
         \<and> n_train sets = 7 \<and> n_val sets = 1 \<and> n_test sets = 2
         \<and> mset (train_set sets) + mset (val_set sets) + mset (test_set sets)
              = mset (valid_images split_source)
         \<and> distinct (train_set sets @ val_set sets @ test_set sets)"
    by blast
  with r p split_source_facts(2,3) show ?thesis by simp
qed

section \<open>Images the cleaner accepts and the splitter never sees\<close>

lemma suffix_of_ends_with:
  assumes "ends_with (CHR ''.'' # e) name" and "CHR ''.'' \<notin> set e" and "e \<noteq> []"
  shows "path_suffix name = CHR ''.'' # e \<or> path_suffix name = []"
proof -
  from assms(1) obtain pre where n: "name = pre @ CHR ''.'' # e"
    by (metis append_take_drop_id ends_with_def)
  have tw: "takeWhile (\<lambda>c. c \<noteq> CHR ''.'') (rev e @ CHR ''.'' # rev pre) = rev e"
    using assms(2) by (subst takeWhile_append2) auto
  have k: "length (takeWhile (\<lambda>c. c \<noteq> CHR ''.'') (rev name)) = length e"
    using tw by (simp add: n)
  have i: "rfind_dot name = int (length pre)"
    by (simp add: rfind_dot_def Let_def k) (simp add: n)
  show ?thesis
  proof (cases "pre = []")
    case True
    then show ?thesis by (simp add: path_suffix_def Let_def i)
  next
    case False
    then show ?thesis using assms(3) by (simp add: path_suffix_def Let_def i) (simp add: n)
  qed
qed

lemma with_suffix_ends_with: "ends_with ''.txt'' (with_suffix p ''.txt'')"
  by (simp add: with_suffix_def ends_with_def Let_def)

lemma lower_image_extensions:
  "py_lower [] \<notin> set image_extensions" "py_lower ''.txt'' \<notin> set image_extensions"
  by code_simp+

lemma accepted_name_not_globbed:
  assumes "py_lower (path_suffix name) \<in> set image_extensions"
    and "path_suffix name \<noteq> ''.jpg''" and "path_suffix name \<noteq> ''.jpeg''"
  shows "\<not> ends_with ''.jpg'' name" and "\<not> ends_with ''.jpeg'' name"
    and "\<not> ends_with ''.txt'' name"
proof -
  have ne: "path_suffix name \<noteq> []" "path_suffix name \<noteq> ''.txt''"
    using assms(1) lower_image_extensions by auto
  show "\<not> ends_with ''.jpg'' name"
    using suffix_of_ends_with [of "''jpg''" name] assms(2) ne(1) by auto
  show "\<not> ends_with ''.jpeg'' name"
    using suffix_of_ends_with [of "''jpeg''" name] assms(3) ne(1) by auto
  show "\<not> ends_with ''.txt'' name"
    using suffix_of_ends_with [of "''txt''" name] ne by auto
qed

lemma set_image_paths:
  "set (image_paths source) =
     {n \<in> fst ` set source. ends_with ''.jpg'' n \<or> ends_with ''.jpeg'' n}"
  by (auto simp: image_paths_def glob_star_filter)

lemma valid_images_names:
  assumes "(img_p, lbl_p) \<in> set (valid_images source)"
  shows "img_p \<in> set (image_paths source)" and "lbl_p = with_suffix img_p ''.txt''"
  using assms by (auto simp: valid_images_def)

lemma slices_subset:
  "set (slice_upto xs a) \<subseteq> set xs" "set (slice_between xs a b) \<subseteq> set xs"
  "set (slice_from xs a) \<subseteq> set xs"
proof -
  show "set (slice_upto xs a) \<subseteq> set xs"
    by (simp add: slice_upto_def set_take_subset)
  show "set (slice_between xs a b) \<subseteq> set xs"
    unfolding slice_between_def
    by (rule subset_trans [OF set_take_subset set_drop_subset])
  show "set (slice_from xs a) \<subseteq> set xs"
    by (simp add: slice_from_def set_drop_subset)
qed

lemma compute_split_subsets:
  assumes "compute_split S source train_ratio val_ratio seed = Inr sets"
  shows "set (train_set sets) \<subseteq> set (random_shuffle S seed (valid_images source))"
    and "set (val_set sets) \<subseteq> set (random_shuffle S seed (valid_images source))"
    and "set (test_set sets) \<subseteq> set (random_shuffle S seed (valid_images source))"
proof -
  let ?sh = "random_shuffle S seed (valid_images source)"
  let ?a = "int_of_float (f_round S (real_of_int (int (length ?sh)) * train_ratio))"
  let ?b = "int_of_float (f_round S (real_of_int (int (length ?sh)) * val_ratio))"
  have "sets = \<lparr>train_set = slice_upto ?sh ?a,
                 val_set = slice_between ?sh ?a (?a + ?b),
                 test_set = slice_from ?sh (?a + ?b),
                 n_train = ?a, n_val = ?b, n_test = int (length ?sh) - ?a - ?b\<rparr>"
    using assms by (simp add: compute_split_def Let_def split: if_splits)
  then have s: "train_set sets = slice_upto ?sh ?a"
    "val_set sets = slice_between ?sh ?a (?a + ?b)" "test_set sets = slice_from ?sh (?a + ?b)"
    by simp_all
  show "set (train_set sets) \<subseteq> set ?sh" by (simp only: s slices_subset)
  show "set (val_set sets) \<subseteq> set ?sh" by (simp only: s slices_subset)
  show "set (test_set sets) \<subseteq> set ?sh" by (simp only: s slices_subset)
qed

lemma copy_pairs_sources:
  "Copy src dst \<in> set (snd (copy_pairs source split_name pairs))
   \<Longrightarrow> src \<in> fst ` set pairs \<or> src \<in> snd ` set pairs"
proof (induction pairs)
  case Nil
  then show ?case by simp
next
  case (Cons pr rest)
  obtain img_p lbl_p where pr: "pr = (img_p, lbl_p)" by (cases pr)
  show ?case
  proof (cases "map_of source img_p")
    case None
    with Cons.prems show ?thesis by (simp add: pr)
  next
    case (Some n1)
    show ?thesis
    proof (cases n1)
      case Unopenable
      with Some Cons.prems show ?thesis by (simp add: pr)
    next
      case (File img_bytes)
      show ?thesis
      proof (cases "map_of source lbl_p")
        case None
        with Some File Cons.prems show ?thesis by (simp add: pr)
      next
        case lbl: (Some n2)
        show ?thesis
        proof (cases n2)
          case Unopenable
          with Some File lbl Cons.prems show ?thesis by (simp add: pr)
        next
          case lf: (File lbl_bytes)
          obtain e actions where r: "copy_pairs source split_name rest = (e, actions)"
            by (cases "copy_pairs source split_name rest")
          from Cons.prems have "src = img_p \<or> src = lbl_p \<or> Copy src dst \<in> set actions"
            by (simp add: pr Some File lbl lf r) blast
          then show ?thesis
          proof (elim disjE)
            assume "Copy src dst \<in> set actions"
            then have "Copy src dst \<in> set (snd (copy_pairs source split_name rest))"
              by (simp add: r)
            from Cons.IH [OF this] show ?thesis by auto
          qed (simp_all add: pr)
        qed
      qed
    qed
  qed
qed

lemma prepare_split_sources:
  "Copy src dst \<in> set (snd (prepare_split source split_name pairs))
   \<Longrightarrow> src \<in> fst ` set pairs \<or> src \<in> snd ` set pairs"
proof -
  assume a: "Copy src dst \<in> set (snd (prepare_split source split_name pairs))"
  obtain e actions where r: "copy_pairs source split_name pairs = (e, actions)"
    by (cases "copy_pairs source split_name pairs")
  from a have "Copy src dst \<in> set (snd (copy_pairs source split_name pairs))"
    by (simp add: prepare_split_def r)
  then show ?thesis by (rule copy_pairs_sources)
qed

lemma split_dataset_sources:
  assumes "Copy src dst \<in> set (snd (split_dataset S source train_ratio val_ratio seed))"
  shows "\<exists>sets. compute_split S source train_ratio val_ratio seed = Inr sets
      \<and> (src \<in> fst ` set (train_set sets @ val_set sets @ test_set sets)
         \<or> src \<in> snd ` set (train_set sets @ val_set sets @ test_set sets))"
proof (cases "compute_split S source train_ratio val_ratio seed")
  case (Inl e)
  with assms show ?thesis by (simp add: split_dataset_def)
next
  case (Inr sets)
  obtain e1 a1 where p1: "prepare_split source ''train'' (train_set sets) = (e1, a1)"
    by (cases "prepare_split source ''train'' (train_set sets)")
  obtain e2 a2 where p2: "prepare_split source ''val'' (val_set sets) = (e2, a2)"
    by (cases "prepare_split source ''val'' (val_set sets)")
  obtain e3 a3 where p3: "prepare_split source ''test'' (test_set sets) = (e3, a3)"
    by (cases "prepare_split source ''test'' (test_set sets)")
  have "set (snd (split_dataset S source train_ratio val_ratio seed))
      \<subseteq> set a1 \<union> set a2 \<union> set a3"
    by (cases e1; cases e2) (auto simp: split_dataset_def Inr p1 p2 p3)
  with assms have "Copy src dst \<in> set a1 \<or> Copy src dst \<in> set a2 \<or> Copy src dst \<in> set a3"
    by blast
  then have "Copy src dst \<in> set (snd (prepare_split source ''train'' (train_set sets)))
      \<or> Copy src dst \<in> set (snd (prepare_split source ''val'' (val_set sets)))
      \<or> Copy src dst \<in> set (snd (prepare_split source ''test'' (test_set sets)))"
    by (simp add: p1 p2 p3)
  then have "src \<in> fst ` set (train_set sets @ val_set sets @ test_set sets)
         \<or> src \<in> snd ` set (train_set sets @ val_set sets @ test_set sets)"
    using prepare_split_sources [of src dst source] by (auto simp: image_Un)
  with Inr show ?thesis by simp
qed


text \<open>
  C10. The splitter enumerates exactly the names of the directory that end with the
  lower-case \<open>.jpg\<close> or \<open>.jpeg\<close>, while the cleaner enumerates every file whose
  suffix, lower-cased, is \<open>.jpg\<close>, \<open>.jpeg\<close> or \<open>.png\<close>. So an image the cleaner
  enumerates whose suffix is not literally \<open>.jpg\<close> or \<open>.jpeg\<close> (a \<open>.png\<close> image or
  one with an upper-case letter in its extension) is not among the paths of the splitter,
  is in none of the train, validation and test sets, and is never copied by the splitter,
  neither as an image nor as a label.
\<close>

theorem splitter_ignores_png_and_uppercase_images:
  assumes "py_lower (path_suffix name) \<in> set image_extensions"
    and "path_suffix name \<noteq> ''.jpg''" and "path_suffix name \<noteq> ''.jpeg''"
    and "mset (random_shuffle S seed (valid_images source)) = mset (valid_images source)"
  shows "((name, entry) \<in> set source \<longrightarrow> (name, entry) \<in> set (image_files source))
    \<and> set (image_paths source)
        = {n \<in> fst ` set source. ends_with ''.jpg'' n \<or> ends_with ''.jpeg'' n}
    \<and> name \<notin> set (image_paths source)
    \<and> name \<notin> fst ` set (valid_images source)
    \<and> (\<forall>sets. compute_split S source train_ratio val_ratio seed = Inr sets \<longrightarrow>
          name \<notin> fst ` set (train_set sets) \<and> name \<notin> fst ` set (val_set sets)
          \<and> name \<notin> fst ` set (test_set sets))
    \<and> (\<forall>dst. Copy name dst \<notin> set (snd (split_dataset S source train_ratio val_ratio seed)))"
proof -
  note ng = accepted_name_not_globbed [OF assms(1-3)]
  have sh: "set (random_shuffle S seed (valid_images source)) = set (valid_images source)"
    using assms(4) by (rule mset_eq_setD)
  have a: "(name, entry) \<in> set source \<longrightarrow> (name, entry) \<in> set (image_files source)"
    using assms(1) by (simp add: image_files_def)
  have b: "name \<notin> set (image_paths source)"
    using ng by (simp add: set_image_paths)
  have c: "name \<notin> fst ` set (valid_images source)"
  proof
    assume "name \<in> fst ` set (valid_images source)"
    then obtain lbl_p where "(name, lbl_p) \<in> set (valid_images source)" by auto
    from valid_images_names(1) [OF this] b show False by simp
  qed
  have d: "name \<notin> snd ` set (valid_images source)"
  proof
    assume "name \<in> snd ` set (valid_images source)"
    then obtain img_p where "(img_p, name) \<in> set (valid_images source)" by auto
    from valid_images_names(2) [OF this] have "name = with_suffix img_p ''.txt''" .
    then have "ends_with ''.txt'' name" by (simp add: with_suffix_ends_with)
    with ng(3) show False by simp
  qed
  have e: "name \<notin> fst ` set (train_set sets) \<and> name \<notin> fst ` set (val_set sets)
          \<and> name \<notin> fst ` set (test_set sets)
          \<and> name \<notin> snd ` set (train_set sets) \<and> name \<notin> snd ` set (val_set sets)
          \<and> name \<notin> snd ` set (test_set sets)"
    if "compute_split S source train_ratio val_ratio seed = Inr sets" for sets
  proof -
    note sub = compute_split_subsets [OF that, unfolded sh]
    from sub(1) c d have "name \<notin> fst ` set (train_set sets)" "name \<notin> snd ` set (train_set sets)"
      by blast+
    moreover from sub(2) c d
    have "name \<notin> fst ` set (val_set sets)" "name \<notin> snd ` set (val_set sets)"
      by blast+
    moreover from sub(3) c d
    have "name \<notin> fst ` set (test_set sets)" "name \<notin> snd ` set (test_set sets)"
      by blast+
    ultimately show ?thesis by simp
  qed
  have f: "Copy name dst \<notin> set (snd (split_dataset S source train_ratio val_ratio seed))"
    for dst
  proof
    assume "Copy name dst \<in> set (snd (split_dataset S source train_ratio val_ratio seed))"
    from split_dataset_sources [OF this] obtain sets where
      s: "compute_split S source train_ratio val_ratio seed = Inr sets"
      and m: "name \<in> fst ` set (train_set sets @ val_set sets @ test_set sets)
         \<or> name \<in> snd ` set (train_set sets @ val_set sets @ test_set sets)"
      by blast
    from e [OF s] m show False by (simp add: image_Un)
  qed
  from a set_image_paths [of source] b c e f show ?thesis by simp
qed

lemma split_run_facts:
  "py_lower (path_suffix ''U.JPG'') \<in> set image_extensions"
  "path_suffix ''U.JPG'' \<noteq> ''.jpg''"
  "path_suffix ''U.JPG'' \<noteq> ''.jpeg''"
  "(''U.JPG'', File ''fine'') \<in> set split_source"
  "map_of split_source ''U.txt'' = Some (File good_label)"
  "case compute_split test_split_runtime split_source (7 / 10) (15 / 100) 42 of
     Inl e \<Rightarrow> False | Inr sets \<Rightarrow> True"
  "fst (split_dataset test_split_runtime split_source (7 / 10) (15 / 100) 42) = None"
  by code_simp+

theorem splitter_ignores_png_and_uppercase_images_witness:
  "py_lower (path_suffix ''U.JPG'') \<in> set image_extensions
   \<and> path_suffix ''U.JPG'' \<noteq> ''.jpg'' \<and> path_suffix ''U.JPG'' \<noteq> ''.jpeg''
   \<and> mset (random_shuffle test_split_runtime 42 (valid_images split_source))
        = mset (valid_images split_source)
   \<and> (''U.JPG'', File ''fine'') \<in> set split_source
   \<and> map_of split_source ''U.txt'' = Some (File good_label)
   \<and> (''U.JPG'', File ''fine'') \<in> set (image_files split_source)
   \<and> ''U.JPG'' \<notin> set (image_paths split_source)
   \<and> (\<exists>sets. compute_split test_split_runtime split_source (7 / 10) (15 / 100) 42 = Inr sets
         \<and> ''U.JPG'' \<notin> fst ` set (train_set sets) \<and> ''U.JPG'' \<notin> fst ` set (val_set sets)
         \<and> ''U.JPG'' \<notin> fst ` set (test_set sets))
   \<and> fst (split_dataset test_split_runtime split_source (7 / 10) (15 / 100) 42) = None
   \<and> (\<forall>dst. Copy ''U.JPG'' dst
         \<notin> set (snd (split_dataset test_split_runtime split_source (7 / 10) (15 / 100) 42)))"
proof -
  have p: "mset (random_shuffle test_split_runtime 42 (valid_images split_source))
        = mset (valid_images split_source)"
    by (simp add: test_split_runtime_def)
  from split_run_facts(6) obtain sets where
    s: "compute_split test_split_runtime split_source (7 / 10) (15 / 100) 42 = Inr sets"
    by (simp split: sum.splits)
  note t = splitter_ignores_png_and_uppercase_images
    [of "''U.JPG''" test_split_runtime 42 split_source "File ''fine''" "7 / 10" "15 / 100",
      OF split_run_facts(1-3) p]
  from t [THEN conjunct1] split_run_facts(4)
  have i: "(''U.JPG'', File ''fine'') \<in> set (image_files split_source)" by simp
  have j: "''U.JPG'' \<notin> set (image_paths split_source)"
    by (rule t [THEN conjunct2, THEN conjunct2, THEN conjunct1])
  note t4 = t [THEN conjunct2, THEN conjunct2, THEN conjunct2, THEN conjunct2]
  from t4 [THEN conjunct1] s have k: "''U.JPG'' \<notin> fst ` set (train_set sets)
      \<and> ''U.JPG'' \<notin> fst ` set (val_set sets) \<and> ''U.JPG'' \<notin> fst ` set (test_set sets)"
    by simp
  have l: "\<forall>dst. Copy ''U.JPG'' dst
         \<notin> set (snd (split_dataset test_split_runtime split_source (7 / 10) (15 / 100) 42))"
    by (rule t4 [THEN conjunct2])
  from s k have m: "\<exists>sets.
      compute_split test_split_runtime split_source (7 / 10) (15 / 100) 42 = Inr sets
         \<and> ''U.JPG'' \<notin> fst ` set (train_set sets) \<and> ''U.JPG'' \<notin> fst ` set (val_set sets)
         \<and> ''U.JPG'' \<notin> fst ` set (test_set sets)"
    by blast
  from split_run_facts(1-5,7) p i j m l show ?thesis by simp
qed

end
